theory Spec2Isabelle
  imports Main "HOL-Library.AList" "HOL-Library.Sublist"
begin

section \<open>Shared schema (shared/schema.ts)\<close>

text \<open>
  The drizzle tables give the entity types. A column without \<open>notNull()\<close> is nullable;
  the model reads \<open>None\<close> for a key that is null, undefined or absent, which the code
  never tells apart (\<open>?.\<close>, \<open>||\<close>). Numbers that are ids or millisecond timestamps are
  \<open>int\<close>: they stand for the integers a JavaScript number holds exactly, which it also
  prints as plain decimal digits. Strings are lists of \<open>char\<close>, each \<open>char\<close>
  standing for a UTF-16 code unit below 256.
\<close>

record User =
  user_id :: int
  username :: string
  password :: string
  fullName :: "string option"
  isAdmin :: "bool option"

record InsertUser =
  in_username :: string
  in_password :: string
  in_fullName :: "string option"

record Post =
  post_id :: int
  title :: string
  content :: string
  imageUrl :: "string option"
  category :: "string option"
  tags :: "string option"
  createdAt :: "int option"
  authorId :: "int option"
  published :: "bool option"

record InsertPost =
  in_title :: string
  in_content :: string
  in_imageUrl :: "string option"
  in_category :: "string option"
  in_tags :: "string option"
  in_authorId :: "int option"
  in_published :: "bool option"

text \<open>
  \<open>Partial<InsertPost>\<close>: every key of \<open>InsertPost\<close> may be left out (outer \<open>None\<close>).
  TypeScript object types are open, so a value of this type may carry further own keys,
  and the object spread in \<open>updatePost\<close> copies every own key. The two keys of \<open>Post\<close>
  that are not keys of \<open>InsertPost\<close> are therefore fields of the update record as well.
\<close>

record PostUpdate =
  upd_title :: "string option"
  upd_content :: "string option"
  upd_imageUrl :: "string option option"
  upd_category :: "string option option"
  upd_tags :: "string option option"
  upd_authorId :: "int option option"
  upd_published :: "bool option option"
  upd_id :: "int option"
  upd_createdAt :: "int option option"

section \<open>MemStorage (storage.ts)\<close>

text \<open>
  A JavaScript \<open>Map\<close> iterates in insertion order; \<open>set\<close> on a present key replaces the
  value in place and on a new key appends; \<open>delete\<close> removes the entry. That is an
  association list with \<open>AList.update\<close> and \<open>AList.delete\<close>. The comment collection and
  the session store are not touched by the operations below and are left out.
\<close>

record MemStorage =
  users :: "(int \<times> User) list"
  posts :: "(int \<times> Post) list"
  currentUserId :: int
  currentPostId :: int

definition adminUser :: User where
  "adminUser = \<lparr>user_id = 1, username = ''admin'', password = ''admin'',
     fullName = Some ''Admin User'', isAdmin = Some True\<rparr>"

definition newMemStorage :: MemStorage where
  "newMemStorage = \<lparr>users = AList.update 1 adminUser [], posts = [],
     currentUserId = 1 + 1, currentPostId = 1\<rparr>"

definition getUser :: "int \<Rightarrow> MemStorage \<Rightarrow> User option" where
  "getUser i s = map_of (users s) i"

definition getUserByUsername :: "string \<Rightarrow> MemStorage \<Rightarrow> User option" where
  "getUserByUsername name s = find (\<lambda>user. username user = name) (map snd (users s))"

definition getAllUsers :: "MemStorage \<Rightarrow> User list" where
  "getAllUsers s = map snd (users s)"

text \<open>
  \<open>createUser\<close> has no failing path: the source neither looks the username up nor
  throws. The result is the new user and the new state.
\<close>

definition createUser :: "InsertUser \<Rightarrow> MemStorage \<Rightarrow> User \<times> MemStorage" where
  "createUser insertUser s =
     (let i = currentUserId s;
          user = \<lparr>user_id = i, username = in_username insertUser,
                  password = in_password insertUser, fullName = in_fullName insertUser,
                  isAdmin = Some False\<rparr>
      in (user, s\<lparr>currentUserId := i + 1, users := AList.update i user (users s)\<rparr>))"

text \<open>\<open>createPost\<close>: \<open>now\<close> is the value of \<open>new Date()\<close> at the call.\<close>

definition newPost :: "int \<Rightarrow> InsertPost \<Rightarrow> int \<Rightarrow> Post" where
  "newPost i insertPost now =
     \<lparr>post_id = i, title = in_title insertPost, content = in_content insertPost,
      imageUrl = in_imageUrl insertPost, category = in_category insertPost,
      tags = in_tags insertPost, createdAt = Some now,
      authorId = in_authorId insertPost, published = in_published insertPost\<rparr>"

definition createPost :: "InsertPost \<Rightarrow> int \<Rightarrow> MemStorage \<Rightarrow> Post \<times> MemStorage" where
  "createPost insertPost now s =
     (let i = currentPostId s;
          post = newPost i insertPost now
      in (post, s\<lparr>currentPostId := i + 1, posts := AList.update i post (posts s)\<rparr>))"

definition getPost :: "int \<Rightarrow> MemStorage \<Rightarrow> Post option" where
  "getPost i s = map_of (posts s) i"

text \<open>One key of the spread \<open>{...post, ...postUpdate}\<close>: a key the update carries wins.\<close>

definition spreadKey :: "'a \<Rightarrow> 'a option \<Rightarrow> 'a" where
  "spreadKey old new = (case new of None \<Rightarrow> old | Some v \<Rightarrow> v)"

definition spreadPost :: "Post \<Rightarrow> PostUpdate \<Rightarrow> Post" where
  "spreadPost post postUpdate =
     \<lparr>post_id = spreadKey (post_id post) (upd_id postUpdate),
      title = spreadKey (title post) (upd_title postUpdate),
      content = spreadKey (content post) (upd_content postUpdate),
      imageUrl = spreadKey (imageUrl post) (upd_imageUrl postUpdate),
      category = spreadKey (category post) (upd_category postUpdate),
      tags = spreadKey (tags post) (upd_tags postUpdate),
      createdAt = spreadKey (createdAt post) (upd_createdAt postUpdate),
      authorId = spreadKey (authorId post) (upd_authorId postUpdate),
      published = spreadKey (published post) (upd_published postUpdate)\<rparr>"

definition updatePost :: "int \<Rightarrow> PostUpdate \<Rightarrow> MemStorage \<Rightarrow> Post option \<times> MemStorage" where
  "updatePost i postUpdate s =
     (case map_of (posts s) i of
        None \<Rightarrow> (None, s)
      | Some post \<Rightarrow>
          (let updatedPost = spreadPost post postUpdate
           in (Some updatedPost, s\<lparr>posts := AList.update i updatedPost (posts s)\<rparr>)))"

definition deletePost :: "int \<Rightarrow> MemStorage \<Rightarrow> bool \<times> MemStorage" where
  "deletePost i s = (map_of (posts s) i \<noteq> None, s\<lparr>posts := AList.delete i (posts s)\<rparr>)"

definition getAllPosts :: "MemStorage \<Rightarrow> Post list" where
  "getAllPosts s = map snd (posts s)"

definition getPostsByAuthor :: "int \<Rightarrow> MemStorage \<Rightarrow> Post list" where
  "getPostsByAuthor a s = filter (\<lambda>post. authorId post = Some a) (map snd (posts s))"

definition getPostsByCategory :: "string \<Rightarrow> MemStorage \<Rightarrow> Post list" where
  "getPostsByCategory c s = filter (\<lambda>post. category post = Some c) (map snd (posts s))"

subsection \<open>Strings: \<open>toLowerCase\<close> and \<open>includes\<close>\<close>

text \<open>
  A \<open>char\<close> stands for a UTF-16 code unit below 256, the Latin-1 range; strings with
  other code units are outside the model. On this range \<open>toLowerCase\<close> works letter by
  letter: it maps A to Z to a to z and the accented capitals U+00C0 to U+00DE, without the
  multiplication sign U+00D7, to the letters 32 code units higher, and leaves every other
  character as it is. \<open>str_includes\<close> is the substring test of
  \<open>String.prototype.includes\<close>.
\<close>

definition lowerChar :: "char \<Rightarrow> char" where
  "lowerChar c =
     (case map_of
        (zip (''ABCDEFGHIJKLMNOPQRSTUVWXYZ'' @
          [CHR 0xC0, CHR 0xC1, CHR 0xC2, CHR 0xC3, CHR 0xC4, CHR 0xC5, CHR 0xC6, CHR 0xC7,
           CHR 0xC8, CHR 0xC9, CHR 0xCA, CHR 0xCB, CHR 0xCC, CHR 0xCD, CHR 0xCE, CHR 0xCF,
           CHR 0xD0, CHR 0xD1, CHR 0xD2, CHR 0xD3, CHR 0xD4, CHR 0xD5, CHR 0xD6, CHR 0xD8,
           CHR 0xD9, CHR 0xDA, CHR 0xDB, CHR 0xDC, CHR 0xDD, CHR 0xDE])
             (''abcdefghijklmnopqrstuvwxyz'' @
          [CHR 0xE0, CHR 0xE1, CHR 0xE2, CHR 0xE3, CHR 0xE4, CHR 0xE5, CHR 0xE6, CHR 0xE7,
           CHR 0xE8, CHR 0xE9, CHR 0xEA, CHR 0xEB, CHR 0xEC, CHR 0xED, CHR 0xEE, CHR 0xEF,
           CHR 0xF0, CHR 0xF1, CHR 0xF2, CHR 0xF3, CHR 0xF4, CHR 0xF5, CHR 0xF6, CHR 0xF8,
           CHR 0xF9, CHR 0xFA, CHR 0xFB, CHR 0xFC, CHR 0xFD, CHR 0xFE])) c of
        None \<Rightarrow> c | Some d \<Rightarrow> d)"

definition toLowerCase :: "string \<Rightarrow> string" where
  "toLowerCase s = map lowerChar s"

fun str_includes :: "'a list \<Rightarrow> 'a list \<Rightarrow> bool" where
  "str_includes [] q = (q = [])"
| "str_includes (c # s) q = (prefix q (c # s) \<or> str_includes s q)"

text \<open>
  The filter callback of \<open>searchPosts\<close>. \<open>post.tags?.toLowerCase().includes(..)\<close> is
  undefined, hence falsy, when the post has no tags.
\<close>

definition searchMatch :: "string \<Rightarrow> Post \<Rightarrow> bool" where
  "searchMatch lowerQuery post =
     (str_includes (toLowerCase (title post)) lowerQuery \<or>
      str_includes (toLowerCase (content post)) lowerQuery \<or>
      (case tags post of None \<Rightarrow> False
       | Some t \<Rightarrow> str_includes (toLowerCase t) lowerQuery))"

definition searchPosts :: "string \<Rightarrow> MemStorage \<Rightarrow> Post list" where
  "searchPosts query s =
     (let lowerQuery = toLowerCase query
      in filter (searchMatch lowerQuery) (map snd (posts s)))"

subsection \<open>Sequences of post operations\<close>

datatype post_op =
    CreatePost InsertPost int
  | UpdatePost int PostUpdate
  | DeletePost int

fun applyOp :: "MemStorage \<Rightarrow> post_op \<Rightarrow> MemStorage" where
  "applyOp s (CreatePost insertPost now) = snd (createPost insertPost now s)"
| "applyOp s (UpdatePost i postUpdate) = snd (updatePost i postUpdate s)"
| "applyOp s (DeletePost i) = snd (deletePost i s)"

definition runOps :: "post_op list \<Rightarrow> MemStorage \<Rightarrow> MemStorage" where
  "runOps ops s = foldl applyOp s ops"

text \<open>
  The later updates of one id, and whether a later delete names it.
\<close>

fun updatesOf :: "int \<Rightarrow> post_op list \<Rightarrow> PostUpdate list" where
  "updatesOf k [] = []"
| "updatesOf k (UpdatePost i u # ops) = (if i = k then u # updatesOf k ops else updatesOf k ops)"
| "updatesOf k (_ # ops) = updatesOf k ops"

definition deletedLater :: "int \<Rightarrow> post_op list \<Rightarrow> bool" where
  "deletedLater k ops = (DeletePost k \<in> set ops)"

text \<open>
  The entries the store reaches from a given entry, in terms of the store's own
  operations; a device of the proofs below.
\<close>

definition survivor :: "post_op list \<Rightarrow> int \<times> Post \<Rightarrow> (int \<times> Post) list" where
  "survivor ops kp =
     (if deletedLater (fst kp) ops then []
      else [(fst kp, foldl spreadPost (snd kp) (updatesOf (fst kp) ops))])"

fun expectedEntries :: "int \<Rightarrow> post_op list \<Rightarrow> (int \<times> Post) list" where
  "expectedEntries k [] = []"
| "expectedEntries k (CreatePost insertPost now # ops) =
     survivor ops (k, newPost k insertPost now) @ expectedEntries (k + 1) ops"
| "expectedEntries k (_ # ops) = expectedEntries k ops"

text \<open>
  The stated result, written without the store's operations. A shallow merge of updates
  in order leaves in each field the value of the last update that provides the field, or
  the value the field had at creation when no update provides it. At creation the fields
  are those of the insert record, the id is the one assigned and createdAt the time of
  the call. The k-th create is assigned id k, and its post is listed unless a later
  delete names that id.
\<close>

fun lastProvided :: "'a \<Rightarrow> 'a option list \<Rightarrow> 'a" where
  "lastProvided created [] = created"
| "lastProvided created (None # later) = lastProvided created later"
| "lastProvided created (Some v # later) = lastProvided v later"

definition mergedRecord :: "int \<Rightarrow> InsertPost \<Rightarrow> int \<Rightarrow> PostUpdate list \<Rightarrow> Post" where
  "mergedRecord k insertPost now us =
     \<lparr>post_id = lastProvided k (map upd_id us),
      title = lastProvided (in_title insertPost) (map upd_title us),
      content = lastProvided (in_content insertPost) (map upd_content us),
      imageUrl = lastProvided (in_imageUrl insertPost) (map upd_imageUrl us),
      category = lastProvided (in_category insertPost) (map upd_category us),
      tags = lastProvided (in_tags insertPost) (map upd_tags us),
      createdAt = lastProvided (Some now) (map upd_createdAt us),
      authorId = lastProvided (in_authorId insertPost) (map upd_authorId us),
      published = lastProvided (in_published insertPost) (map upd_published us)\<rparr>"

fun listedPosts :: "int \<Rightarrow> post_op list \<Rightarrow> Post list" where
  "listedPosts k [] = []"
| "listedPosts k (CreatePost insertPost now # ops) =
     (if DeletePost k \<in> set ops then []
      else [mergedRecord k insertPost now (updatesOf k ops)]) @ listedPosts (k + 1) ops"
| "listedPosts k (_ # ops) = listedPosts k ops"

definition expectedPosts :: "post_op list \<Rightarrow> Post list" where
  "expectedPosts ops = listedPosts 1 ops"

text \<open>The invariant of the post collection: keys are distinct and below the counter.\<close>

definition storeInv :: "MemStorage \<Rightarrow> bool" where
  "storeInv s \<longleftrightarrow>
     distinct (map fst (posts s)) \<and> (\<forall>k \<in> fst ` set (posts s). k < currentPostId s)"

section \<open>External content (client/src/lib/api-service.ts)\<close>

record ExternalBlogPost =
  ext_id :: int
  ext_title :: string
  body :: string
  userId :: int
  ext_tags :: "string list"
  reactions :: int

record ExternalApiResponse =
  api_posts :: "ExternalBlogPost list"
  api_total :: int
  api_skip :: int
  api_limit :: int

subsection \<open>Number to string, \<open>Array.prototype.join\<close>\<close>

definition digitChar :: "nat \<Rightarrow> char" where
  "digitChar d = ''0123456789'' ! (d mod 10)"

fun natToString :: "nat \<Rightarrow> string" where
  "natToString n =
     (if n < 10 then [digitChar n] else natToString (n div 10) @ [digitChar (n mod 10)])"

declare natToString.simps [simp del]

definition numberToString :: "int \<Rightarrow> string" where
  "numberToString i = (if i < 0 then CHR ''-'' # natToString (nat (- i)) else natToString (nat i))"

text \<open>Reading decimal digits back, to state that \<open>natToString\<close> loses nothing.\<close>

definition digitValue :: "char \<Rightarrow> nat" where
  "digitValue c = (case map_of (zip ''0123456789'' [0, 1, 2, 3, 4, 5, 6, 7, 8, 9]) c of
                     None \<Rightarrow> 0 | Some d \<Rightarrow> d)"

definition decimalValue :: "string \<Rightarrow> nat" where
  "decimalValue s = foldl (\<lambda>acc c. 10 * acc + digitValue c) 0 s"

fun join :: "string \<Rightarrow> string list \<Rightarrow> string" where
  "join sep [] = []"
| "join sep [x] = x"
| "join sep (x # y # ys) = x @ sep @ join sep (y # ys)"

subsection \<open>\<open>mapExternalPostToSchema\<close>\<close>

text \<open>
  \<open>post.tags[0] || 'Uncategorized'\<close>: the left operand is undefined for an empty array
  and falsy for an empty string. \<open>now\<close> is the value of \<open>new Date()\<close>.
\<close>

definition firstTagOr :: "string \<Rightarrow> string list \<Rightarrow> string" where
  "firstTagOr dflt ts = (case ts of [] \<Rightarrow> dflt | t # _ \<Rightarrow> if t = [] then dflt else t)"

definition mapExternalPostToSchema :: "int \<Rightarrow> ExternalBlogPost \<Rightarrow> Post" where
  "mapExternalPostToSchema now post =
     \<lparr>post_id = ext_id post,
      title = ext_title post,
      content = body post,
      imageUrl = Some (''https://picsum.photos/seed/'' @ numberToString (ext_id post) @ ''/800/500''),
      category = Some (firstTagOr ''Uncategorized'' (ext_tags post)),
      tags = Some (join '','' (ext_tags post)),
      createdAt = Some now,
      authorId = Some (userId post),
      published = Some True\<rparr>"

subsection \<open>The fetch boundary\<close>

text \<open>
  Each exported function awaits one \<open>fetch\<close>. Its outcome is a parameter: the promise
  rejects (\<open>Inl\<close>), or resolves to a response with its \<open>ok\<close> flag and with what
  \<open>response.json()\<close> gives: a thrown error, or the payload. A payload of the wrong shape
  makes the first access to it throw a \<open>TypeError\<close> inside the same \<open>try\<close> block, so it
  is an \<open>Inl\<close> of \<open>json\<close> as well. The arguments \<open>limit\<close>, \<open>skip\<close> and \<open>query\<close> only
  shape the URL.
\<close>

datatype js_error = NetworkError | SyntaxError | TypeError | Error string

record Response =
  ok :: bool
  json :: "js_error + ExternalApiResponse"

type_synonym fetched = "js_error + Response"

definition fetchJson :: "string \<Rightarrow> fetched \<Rightarrow> js_error + ExternalApiResponse" where
  "fetchJson msg fetched =
     (case fetched of
        Inl e \<Rightarrow> Inl e
      | Inr response \<Rightarrow> if \<not> ok response then Inl (Error msg) else json response)"

definition catchEmpty :: "js_error + 'a list \<Rightarrow> 'a list" where
  "catchEmpty r = (case r of Inl e \<Rightarrow> [] | Inr xs \<Rightarrow> xs)"

definition fetchExternalPosts_try :: "int \<Rightarrow> fetched \<Rightarrow> js_error + Post list" where
  "fetchExternalPosts_try now fetched =
     (case fetchJson ''Failed to fetch posts from external API'' fetched of
        Inl e \<Rightarrow> Inl e
      | Inr data \<Rightarrow> Inr (map (mapExternalPostToSchema now) (api_posts data)))"

definition fetchExternalPosts :: "int \<Rightarrow> fetched \<Rightarrow> Post list" where
  "fetchExternalPosts now fetched = catchEmpty (fetchExternalPosts_try now fetched)"

definition searchExternalPosts_try :: "int \<Rightarrow> fetched \<Rightarrow> js_error + Post list" where
  "searchExternalPosts_try now fetched =
     (case fetchJson ''Failed to search posts from external API'' fetched of
        Inl e \<Rightarrow> Inl e
      | Inr data \<Rightarrow> Inr (map (mapExternalPostToSchema now) (api_posts data)))"

definition searchExternalPosts :: "int \<Rightarrow> fetched \<Rightarrow> Post list" where
  "searchExternalPosts now fetched = catchEmpty (searchExternalPosts_try now fetched)"

subsection \<open>\<open>fetchExternalPostsByCategory\<close>: the keyword tables\<close>

definition predefinedCategories :: "string list" where
  "predefinedCategories = [''technology'', ''travel'', ''food'', ''lifestyle'', ''health'']"

definition categoryToTags :: "(string \<times> string list) list" where
  "categoryToTags =
     [(''technology'', [''tech'', ''digital'', ''programming'', ''computer'', ''technology'',
                        ''software'', ''hardware'', ''app'', ''innovation'']),
      (''travel'', [''travel'', ''trip'', ''adventure'', ''vacation'', ''journey'', ''tourism'',
                    ''destination'', ''explore'', ''world'']),
      (''food'', [''food'', ''cooking'', ''recipe'', ''cuisine'', ''meal'', ''restaurant'',
                  ''dinner'', ''lunch'', ''breakfast'', ''eat'']),
      (''lifestyle'', [''lifestyle'', ''life'', ''living'', ''family'', ''home'', ''personal'',
                       ''style'', ''trends'', ''fashion'']),
      (''health'', [''health'', ''fitness'', ''wellness'', ''exercise'', ''medical'',
                    ''nutrition'', ''workout'', ''diet'', ''mental''])]"

definition categoryKeywords :: "(string \<times> string list) list" where
  "categoryKeywords =
     [(''technology'', [''new'', ''digital'', ''future'', ''smart'', ''device'', ''online'',
                        ''virtual'', ''product'']),
      (''travel'', [''visit'', ''place'', ''country'', ''hotel'', ''experience'', ''flight'',
                    ''tour'', ''holiday'']),
      (''food'', [''delicious'', ''tasty'', ''recipe'', ''cook'', ''restaurant'', ''chef'',
                  ''ingredients'', ''flavor'']),
      (''lifestyle'', [''trend'', ''modern'', ''style'', ''design'', ''fashion'', ''home'',
                       ''decoration'', ''living'']),
      (''health'', [''healthy'', ''exercise'', ''fitness'', ''diet'', ''nutrition'', ''weight'',
                    ''wellness'', ''body''])]"

definition fallbackCategoryToTags :: "(string \<times> string list) list" where
  "fallbackCategoryToTags =
     [(''writing'', [''writing'', ''writer'', ''blog'', ''content'', ''author'', ''blogging'',
                     ''story'', ''fiction''])]"

text \<open>
  \<open>table[key]\<close> on an object literal finds an own key, else a property inherited from
  \<open>Object.prototype\<close> (a function or an object: truthy, and not an array), else
  undefined.
\<close>

datatype 'a js_lookup = Own 'a | Inherited | Missing

definition objectPrototypeKeys :: "string list" where
  "objectPrototypeKeys =
     [''constructor'', ''__defineGetter__'', ''__defineSetter__'', ''hasOwnProperty'',
      ''__lookupGetter__'', ''__lookupSetter__'', ''isPrototypeOf'', ''propertyIsEnumerable'',
      ''toString'', ''valueOf'', ''__proto__'', ''toLocaleString'']"

definition recordGet :: "(string \<times> 'a) list \<Rightarrow> string \<Rightarrow> 'a js_lookup" where
  "recordGet tbl key =
     (case map_of tbl key of
        Some v \<Rightarrow> Own v
      | None \<Rightarrow> if key \<in> set objectPrototypeKeys then Inherited else Missing)"

definition tagMatch :: "string list \<Rightarrow> ExternalBlogPost \<Rightarrow> bool" where
  "tagMatch matchingTags post =
     list_ex (\<lambda>tag. list_ex (\<lambda>matchTag. str_includes (toLowerCase tag) matchTag) matchingTags)
       (ext_tags post)"

definition contentMatch :: "string list \<Rightarrow> ExternalBlogPost \<Rightarrow> bool" where
  "contentMatch matchingKeywords post =
     list_ex (\<lambda>keyword. str_includes (toLowerCase (ext_title post)) keyword \<or>
                        str_includes (toLowerCase (body post)) keyword) matchingKeywords"

definition forceCategory :: "int \<Rightarrow> string \<Rightarrow> ExternalBlogPost \<Rightarrow> Post" where
  "forceCategory now cat post =
     (mapExternalPostToSchema now post)\<lparr>category := Some (toLowerCase cat)\<rparr>"

subsection \<open>Object identity\<close>

text \<open>
  \<open>Array.prototype.includes\<close> on an array of objects compares references. An object is
  its address with its contents; \<open>response.json()\<close> and every object literal in a \<open>map\<close>
  callback build new objects, at addresses not used before.
\<close>

type_synonym 'a obj = "nat \<times> 'a"

definition newObjects :: "nat \<Rightarrow> 'a list \<Rightarrow> 'a obj list" where
  "newObjects a xs = zip [a ..< a + length xs] xs"

definition arrayIncludes :: "'a obj list \<Rightarrow> 'a obj \<Rightarrow> bool" where
  "arrayIncludes xs x = (fst x \<in> set (map fst xs))"

subsection \<open>The branch for the five predefined categories\<close>

text \<open>
  Under the guard of this branch the lower-cased category is an own key of both tables,
  so the two lookups do not reach the prototype and their \<open>||\<close> defaults are not taken.
\<close>

definition matchedObjects :: "string \<Rightarrow> ExternalBlogPost obj list \<Rightarrow> ExternalBlogPost obj list" where
  "matchedObjects cat dataPosts =
     (let matchingTags = (case map_of categoryToTags (toLowerCase cat) of
                            Some ts \<Rightarrow> ts | None \<Rightarrow> [toLowerCase cat]);
          matchingKeywords = (case map_of categoryKeywords (toLowerCase cat) of
                            Some ks \<Rightarrow> ks | None \<Rightarrow> [])
      in filter (\<lambda>post. tagMatch matchingTags (snd post) \<or> contentMatch matchingKeywords (snd post))
           dataPosts)"

definition retag :: "string \<Rightarrow> ExternalBlogPost \<Rightarrow> ExternalBlogPost" where
  "retag cat post =
     post\<lparr>ext_tags := toLowerCase cat #
             filter (\<lambda>tag. toLowerCase tag \<noteq> toLowerCase cat) (ext_tags post)\<rparr>"

definition addTag :: "string \<Rightarrow> ExternalBlogPost \<Rightarrow> ExternalBlogPost" where
  "addTag cat post = post\<lparr>ext_tags := toLowerCase cat # ext_tags post\<rparr>"

definition additionalPosts ::
  "string \<Rightarrow> ExternalBlogPost obj list \<Rightarrow> ExternalBlogPost obj list \<Rightarrow> ExternalBlogPost obj list" where
  "additionalPosts cat dataPosts filteredPosts =
     newObjects (length dataPosts + length filteredPosts)
       (map (\<lambda>post. addTag cat (snd post))
          (take (10 - length filteredPosts)
             (filter (\<lambda>post. \<not> arrayIncludes filteredPosts post) dataPosts)))"

definition categoryPosts :: "int \<Rightarrow> string \<Rightarrow> ExternalApiResponse \<Rightarrow> Post list" where
  "categoryPosts now cat data =
     (let dataPosts = newObjects 0 (api_posts data);
          filteredPosts = newObjects (length dataPosts)
             (map (\<lambda>post. retag cat (snd post)) (matchedObjects cat dataPosts));
          filteredPosts' =
             (if length filteredPosts < 5
              then filteredPosts @ additionalPosts cat dataPosts filteredPosts
              else filteredPosts)
      in map (\<lambda>post. forceCategory now cat (snd post)) filteredPosts')"

subsection \<open>The branch for every other category\<close>

text \<open>
  Here the lookup can reach the prototype. The value found there has no \<open>some\<close> method,
  and the call \<open>matchingTags.some(..)\<close> is made for the first tag of the first post that
  has one: a \<open>TypeError\<close> unless no post has a tag.
\<close>

definition fallbackFiltered :: "string \<Rightarrow> ExternalBlogPost list \<Rightarrow> js_error + ExternalBlogPost list" where
  "fallbackFiltered cat dataPosts =
     (case recordGet fallbackCategoryToTags (toLowerCase cat) of
        Own ts \<Rightarrow> Inr (filter (tagMatch ts) dataPosts)
      | Missing \<Rightarrow> Inr (filter (tagMatch [toLowerCase cat]) dataPosts)
      | Inherited \<Rightarrow>
          if list_ex (\<lambda>post. ext_tags post \<noteq> []) dataPosts then Inl TypeError else Inr [])"

definition fallbackPosts :: "int \<Rightarrow> string \<Rightarrow> ExternalApiResponse \<Rightarrow> js_error + Post list" where
  "fallbackPosts now cat data =
     (case fallbackFiltered cat (api_posts data) of
        Inl e \<Rightarrow> Inl e
      | Inr filteredPosts \<Rightarrow>
          if length filteredPosts = 0
          then Inr (map (forceCategory now cat) (take 6 (api_posts data)))
          else Inr (map (forceCategory now cat) filteredPosts))"

definition fetchExternalPostsByCategory_try :: "int \<Rightarrow> string \<Rightarrow> fetched \<Rightarrow> js_error + Post list" where
  "fetchExternalPostsByCategory_try now cat fetched =
     (if cat = ''all'' then Inr (fetchExternalPosts now fetched)
      else if toLowerCase cat \<in> set predefinedCategories
      then (case fetchJson ''Failed to fetch posts from external API'' fetched of
              Inl e \<Rightarrow> Inl e
            | Inr data \<Rightarrow> Inr (categoryPosts now cat data))
      else (case fetchJson ''Failed to fetch posts from external API'' fetched of
              Inl e \<Rightarrow> Inl e
            | Inr data \<Rightarrow> fallbackPosts now cat data))"

definition fetchExternalPostsByCategory :: "int \<Rightarrow> string \<Rightarrow> fetched \<Rightarrow> Post list" where
  "fetchExternalPostsByCategory now cat fetched =
     catchEmpty (fetchExternalPostsByCategory_try now cat fetched)"

section \<open>Aggregation pipeline (HomePage)\<close>

text \<open>
  \<open>Array.prototype.sort\<close> is stable, and with a consistent comparator its result is the
  one stable ordering: each element goes in front of the first later element it does not
  compare greater than. \<open>localeCompare\<close> belongs to the platform and is the parameter
  \<open>lc\<close>.
\<close>

definition combinedPosts :: "Post list \<Rightarrow> Post list \<Rightarrow> Post list" where
  "combinedPosts internalPosts externalPosts = internalPosts @ externalPosts"

definition categoryStage :: "string \<Rightarrow> Post list \<Rightarrow> Post list" where
  "categoryStage selectedCategory ps =
     (if selectedCategory \<noteq> ''all''
      then filter (\<lambda>post. case category post of None \<Rightarrow> False
                         | Some c \<Rightarrow> toLowerCase c = selectedCategory) ps
      else ps)"

definition searchStage :: "string \<Rightarrow> Post list \<Rightarrow> Post list" where
  "searchStage searchQuery ps =
     (if searchQuery \<noteq> []
      then (let query = toLowerCase searchQuery in filter (searchMatch query) ps)
      else ps)"

definition createdAtTime :: "Post \<Rightarrow> int" where
  "createdAtTime post = (case createdAt post of None \<Rightarrow> 0 | Some t \<Rightarrow> t)"

definition comparePosts :: "(string \<Rightarrow> string \<Rightarrow> int) \<Rightarrow> string \<Rightarrow> Post \<Rightarrow> Post \<Rightarrow> int" where
  "comparePosts lc sortBy a b =
     (if sortBy = ''oldest'' then createdAtTime a - createdAtTime b
      else if sortBy = ''title_asc'' then lc (title a) (title b)
      else if sortBy = ''title_desc'' then lc (title b) (title a)
      else createdAtTime b - createdAtTime a)"

fun insertBy :: "('a \<Rightarrow> 'a \<Rightarrow> int) \<Rightarrow> 'a \<Rightarrow> 'a list \<Rightarrow> 'a list" where
  "insertBy cmp x [] = [x]"
| "insertBy cmp x (y # ys) = (if cmp x y \<le> 0 then x # y # ys else y # insertBy cmp x ys)"

definition jsSort :: "('a \<Rightarrow> 'a \<Rightarrow> int) \<Rightarrow> 'a list \<Rightarrow> 'a list" where
  "jsSort cmp xs = foldr (insertBy cmp) xs []"

definition pipeline ::
  "(string \<Rightarrow> string \<Rightarrow> int) \<Rightarrow> Post list \<Rightarrow> string \<Rightarrow> string \<Rightarrow> string \<Rightarrow> Post list" where
  "pipeline lc ps selectedCategory searchQuery sortBy =
     jsSort (comparePosts lc sortBy) (searchStage searchQuery (categoryStage selectedCategory ps))"

text \<open>
  A comparator is consistent when it is antisymmetric in sign and transitive; two
  elements tie when it gives 0. \<open>noTies\<close> says that no two positions of a list tie.
\<close>

definition consistentComparator :: "('a \<Rightarrow> 'a \<Rightarrow> int) \<Rightarrow> bool" where
  "consistentComparator cmp \<longleftrightarrow>
     (\<forall>a b. (cmp a b < 0) = (0 < cmp b a)) \<and>
     (\<forall>a b c. cmp a b \<le> 0 \<and> cmp b c \<le> 0 \<longrightarrow> cmp a c \<le> 0)"

fun noTies :: "('a \<Rightarrow> 'a \<Rightarrow> int) \<Rightarrow> 'a list \<Rightarrow> bool" where
  "noTies cmp [] = True"
| "noTies cmp (x # xs) = (list_all (\<lambda>y. cmp x y \<noteq> 0) xs \<and> noTies cmp xs)"

text \<open>A comparator of code units, used where a concrete \<open>lc\<close> is needed.\<close>

fun codeUnitCompare :: "string \<Rightarrow> string \<Rightarrow> int" where
  "codeUnitCompare [] [] = 0"
| "codeUnitCompare [] (b # bs) = - 1"
| "codeUnitCompare (a # as) [] = 1"
| "codeUnitCompare (a # as) (b # bs) =
     (if (of_char a :: nat) < of_char b then - 1
      else if (of_char b :: nat) < of_char a then 1
      else codeUnitCompare as bs)"

section \<open>Reference notions and sample data\<close>

text \<open>
  A case-insensitive substring match in terms of lower-casing: the lower-cased query is a
  contiguous part of the lower-cased text.
\<close>

definition caseInsensitiveSubstring :: "string \<Rightarrow> string \<Rightarrow> bool" where
  "caseInsensitiveSubstring q t = sublist (toLowerCase q) (toLowerCase t)"

text \<open>
  The same notion without any lower-casing. Two characters are the same letter when they
  are equal or one is a capital and the other is 32 code units above it; the capitals are
  the code units 65 to 90 and 192 to 222 without 215. A query occurs in a text ignoring
  case when some stretch of the text has the query's length and agrees with it letter by
  letter.
\<close>

definition upperCode :: "nat \<Rightarrow> bool" where
  "upperCode n \<longleftrightarrow> (65 \<le> n \<and> n \<le> 90) \<or> (192 \<le> n \<and> n \<le> 222 \<and> n \<noteq> 215)"



text \<open>The empty object as an update, and one insert record.\<close>

definition emptyUpdate :: PostUpdate where
  "emptyUpdate = \<lparr>upd_title = None, upd_content = None, upd_imageUrl = None,
     upd_category = None, upd_tags = None, upd_authorId = None, upd_published = None,
     upd_id = None, upd_createdAt = None\<rparr>"

definition helloPost :: InsertPost where
  "helloPost = \<lparr>in_title = ''Hello'', in_content = ''First post'', in_imageUrl = None,
     in_category = Some ''Travel'', in_tags = Some ''trip,Sea'', in_authorId = Some 1,
     in_published = Some True\<rparr>"

text \<open>
  A failed fetch: the promise rejects (network error), or the response is not ok, or
  reading the payload throws (text that is not JSON, or JSON of the wrong shape).
\<close>

definition fetchFailed :: "fetched \<Rightarrow> bool" where
  "fetchFailed fetched =
     (case fetched of
        Inl e \<Rightarrow> True
      | Inr response \<Rightarrow> (if ok response then isl (json response) else True))"

text \<open>A successful fetch of given source posts, and the source post of the mapping example.\<close>

definition okResponse :: "ExternalBlogPost list \<Rightarrow> fetched" where
  "okResponse ps =
     Inr \<lparr>ok = True,
          json = Inr \<lparr>api_posts = ps, api_total = int (length ps), api_skip = 0, api_limit = 100\<rparr>\<rparr>"

definition samplePost :: ExternalBlogPost where
  "samplePost = \<lparr>ext_id = 7, ext_title = ''T'', body = ''B'', userId = 3,
     ext_tags = [''tech'', ''x''], reactions = 5\<rparr>"

text \<open>
  A source post whose tags contain the category: some tag has the category as a
  case-insensitive substring.
\<close>

definition tagContains :: "string \<Rightarrow> ExternalBlogPost \<Rightarrow> bool" where
  "tagContains cat post = (\<exists>tag \<in> set (ext_tags post). caseInsensitiveSubstring cat tag)"

text \<open>Two local posts with different titles and creation times.\<close>

definition applePost :: Post where
  "applePost = newPost 1 (helloPost\<lparr>in_title := ''Apple''\<rparr>) 1000"

definition bananaPost :: Post where
  "bananaPost = newPost 2 (helloPost\<lparr>in_title := ''Banana''\<rparr>) 2000"

section \<open>Properties of the store\<close>

subsection \<open>Sequences of post operations\<close>

lemma update_fresh: "k \<notin> fst ` set al \<Longrightarrow> AList.update k v al = al @ [(k, v)]"
  by (induction al) auto

lemma replace_absent:
  "k \<notin> fst ` set al \<Longrightarrow> map (\<lambda>kp. if kp = (k, p) then (k, v) else kp) al = al"
  by (induction al) auto

lemma update_present:
  "distinct (map fst al) \<Longrightarrow> map_of al k = Some p \<Longrightarrow>
   AList.update k v al = map (\<lambda>kp. if kp = (k, p) then (k, v) else kp) al"
proof (induction al)
  case Nil
  then show ?case by simp
next
  case (Cons a al)
  show ?case
  proof (cases "fst a = k")
    case True
    with Cons.prems have "a = (k, p)" and "k \<notin> fst ` set al"
      by (auto simp: prod_eq_iff)
    then show ?thesis by (simp add: replace_absent)
  next
    case False
    with Cons show ?thesis by auto
  qed
qed

lemma survivor_Nil: "concat (map (survivor []) al) = al"
  by (induction al) (auto simp: survivor_def deletedLater_def)

lemma deletedLater_Cons:
  "deletedLater k (opn # ops) = (opn = DeletePost k \<or> deletedLater k ops)"
  by (auto simp: deletedLater_def)

lemma survivor_Create [simp]: "survivor (CreatePost ins now # ops) = survivor ops"
  by (rule ext) (simp add: survivor_def deletedLater_Cons)

lemma survivor_Update:
  "survivor (UpdatePost i u # ops) kp =
     (if fst kp = i then survivor ops (fst kp, spreadPost (snd kp) u) else survivor ops kp)"
  by (simp add: survivor_def deletedLater_Cons)

lemma survivor_Delete:
  "survivor (DeletePost i # ops) kp = (if fst kp = i then [] else survivor ops kp)"
  by (auto simp: survivor_def deletedLater_Cons)

lemma concat_map_filter_if:
  "concat (map f (filter P xs)) = concat (map (\<lambda>x. if P x then f x else []) xs)"
  by (induction xs) auto

lemma storeInv_applyOp: "storeInv s \<Longrightarrow> storeInv (applyOp s opn)"
proof (cases opn)
  case (CreatePost ins now)
  assume inv: "storeInv s"
  then have fresh: "currentPostId s \<notin> fst ` set (posts s)"
    by (auto simp: storeInv_def)
  with inv show ?thesis using CreatePost
    by (auto simp: storeInv_def createPost_def Let_def AList.distinct_update AList.dom_update)
next
  case (UpdatePost i u)
  assume inv: "storeInv s"
  show ?thesis
  proof (cases "map_of (posts s) i")
    case None
    with inv UpdatePost show ?thesis by (simp add: updatePost_def)
  next
    case (Some p)
    then have "i \<in> fst ` set (posts s)"
      by (metis map_of_eq_None_iff option.distinct(1))
    then have "fst ` set (AList.update i v (posts s)) = fst ` set (posts s)" for v
      by (auto simp: AList.dom_update)
    with inv Some UpdatePost show ?thesis
      by (simp add: storeInv_def updatePost_def Let_def AList.distinct_update)
  qed
next
  case (DeletePost i)
  assume inv: "storeInv s"
  then show ?thesis using DeletePost
    by (auto simp: storeInv_def deletePost_def AList.delete_eq distinct_map_filter)
qed

lemma step_entries:
  assumes "storeInv s"
  shows "concat (map (survivor ops) (posts (applyOp s opn))) @
           expectedEntries (currentPostId (applyOp s opn)) ops =
         concat (map (survivor (opn # ops)) (posts s)) @
           expectedEntries (currentPostId s) (opn # ops)"
proof (cases opn)
  case (CreatePost ins now)
  from assms have fresh: "currentPostId s \<notin> fst ` set (posts s)"
    by (auto simp: storeInv_def)
  show ?thesis using CreatePost
    by (simp add: createPost_def Let_def update_fresh [OF fresh])
next
  case (UpdatePost i u)
  show ?thesis
  proof (cases "map_of (posts s) i")
    case None
    then have "\<And>kp. kp \<in> set (posts s) \<Longrightarrow> fst kp \<noteq> i"
      by (metis map_of_eq_None_iff image_eqI)
    then have "map (survivor (UpdatePost i u # ops)) (posts s) = map (survivor ops) (posts s)"
      by (intro map_cong) (auto simp: survivor_Update)
    then have "concat (map (survivor (UpdatePost i u # ops)) (posts s))
               = concat (map (survivor ops) (posts s))"
      by (rule arg_cong)
    with None UpdatePost show ?thesis by (simp add: updatePost_def)
  next
    case (Some p)
    from assms have d: "distinct (map fst (posts s))" by (simp add: storeInv_def)
    have key: "\<And>kp. kp \<in> set (posts s) \<Longrightarrow> fst kp = i \<Longrightarrow> kp = (i, p)"
      using d Some by (metis map_of_is_SomeI option.inject prod.collapse)
    have "map (survivor ops) (map (\<lambda>kp. if kp = (i, p) then (i, spreadPost p u) else kp) (posts s))
          = map (survivor (UpdatePost i u # ops)) (posts s)"
      unfolding map_map by (intro map_cong) (auto simp: survivor_Update dest: key)
    then have "concat (map (survivor ops)
                 (map (\<lambda>kp. if kp = (i, p) then (i, spreadPost p u) else kp) (posts s)))
          = concat (map (survivor (UpdatePost i u # ops)) (posts s))"
      by (rule arg_cong)
    with Some UpdatePost show ?thesis
      by (simp add: updatePost_def Let_def update_present [OF d Some])
  qed
next
  case (DeletePost i)
  have "concat (map (survivor ops) (AList.delete i (posts s)))
        = concat (map (survivor (DeletePost i # ops)) (posts s))"
    unfolding AList.delete_eq concat_map_filter_if
    by (rule arg_cong [where f = concat], intro map_cong) (auto simp: survivor_Delete)
  with DeletePost show ?thesis by (simp add: deletePost_def)
qed

lemma runOps_entries:
  "storeInv s \<Longrightarrow>
   posts (runOps ops s) =
     concat (map (survivor ops) (posts s)) @ expectedEntries (currentPostId s) ops"
proof (induction ops arbitrary: s)
  case Nil
  show ?case by (simp add: runOps_def survivor_Nil)
next
  case (Cons opn ops)
  have "posts (runOps (opn # ops) s) = posts (runOps ops (applyOp s opn))"
    by (simp add: runOps_def)
  also have "\<dots> = concat (map (survivor ops) (posts (applyOp s opn))) @
           expectedEntries (currentPostId (applyOp s opn)) ops"
    by (rule Cons.IH) (rule storeInv_applyOp [OF Cons.prems])
  also have "\<dots> = concat (map (survivor (opn # ops)) (posts s)) @
           expectedEntries (currentPostId s) (opn # ops)"
    by (rule step_entries [OF Cons.prems])
  finally show ?case .
qed

text \<open>The store's creation and spread give the record of the stated result.\<close>

lemma lastProvided_Cons: "lastProvided d (x # xs) = lastProvided (spreadKey d x) xs"
  by (cases x) (simp_all add: spreadKey_def)

lemma spreadPost_fields:
  "post_id (spreadPost p u) = spreadKey (post_id p) (upd_id u)"
  "title (spreadPost p u) = spreadKey (title p) (upd_title u)"
  "content (spreadPost p u) = spreadKey (content p) (upd_content u)"
  "imageUrl (spreadPost p u) = spreadKey (imageUrl p) (upd_imageUrl u)"
  "category (spreadPost p u) = spreadKey (category p) (upd_category u)"
  "tags (spreadPost p u) = spreadKey (tags p) (upd_tags u)"
  "createdAt (spreadPost p u) = spreadKey (createdAt p) (upd_createdAt u)"
  "authorId (spreadPost p u) = spreadKey (authorId p) (upd_authorId u)"
  "published (spreadPost p u) = spreadKey (published p) (upd_published u)"
  by (simp_all add: spreadPost_def)

lemma foldl_spreadPost:
  "foldl spreadPost p us =
     \<lparr>post_id = lastProvided (post_id p) (map upd_id us),
      title = lastProvided (title p) (map upd_title us),
      content = lastProvided (content p) (map upd_content us),
      imageUrl = lastProvided (imageUrl p) (map upd_imageUrl us),
      category = lastProvided (category p) (map upd_category us),
      tags = lastProvided (tags p) (map upd_tags us),
      createdAt = lastProvided (createdAt p) (map upd_createdAt us),
      authorId = lastProvided (authorId p) (map upd_authorId us),
      published = lastProvided (published p) (map upd_published us)\<rparr>"
proof (induction us arbitrary: p)
  case Nil
  show ?case by simp
next
  case (Cons u us)
  have "foldl spreadPost p (u # us) = foldl spreadPost (spreadPost p u) us" by simp
  also note Cons.IH [of "spreadPost p u"]
  finally show ?case by (simp add: lastProvided_Cons spreadPost_fields)
qed

lemma foldl_spreadPost_newPost:
  "foldl spreadPost (newPost k insertPost now) us = mergedRecord k insertPost now us"
  by (simp add: foldl_spreadPost mergedRecord_def newPost_def)

lemma expectedEntries_listed: "map snd (expectedEntries k ops) = listedPosts k ops"
  by (induction k ops rule: listedPosts.induct)
     (simp_all add: survivor_def deletedLater_def foldl_spreadPost_newPost)

text \<open>
  C1. Run any finite sequence of createPost, updatePost and deletePost from the store
  the constructor builds. getAllPosts then returns, in creation order, exactly the
  created posts that no later delete names; each field of such a post holds the value of
  the last later update of its id that provides the field, and the value given at
  creation when none does.
\<close>

theorem C1_getAllPosts_after_ops:
  "getAllPosts (runOps ops newMemStorage) = expectedPosts ops"
proof -
  have "storeInv newMemStorage" by (simp add: storeInv_def newMemStorage_def)
  from runOps_entries [OF this, of ops] show ?thesis
    by (simp add: getAllPosts_def expectedPosts_def newMemStorage_def expectedEntries_listed)
qed

theorem C1_getAllPosts_after_ops_witness:
  "getAllPosts (runOps
      [CreatePost helloPost 1000, CreatePost helloPost 2000,
       UpdatePost 1 (emptyUpdate\<lparr>upd_title := Some ''Bye''\<rparr>), DeletePost 2,
       UpdatePost 1 (emptyUpdate\<lparr>upd_tags := Some None\<rparr>), UpdatePost 2 emptyUpdate]
      newMemStorage) =
   [\<lparr>post_id = 1, title = ''Bye'', content = ''First post'', imageUrl = None,
     category = Some ''Travel'', tags = None, createdAt = Some 1000, authorId = Some 1,
     published = Some True\<rparr>]"
  using C1_getAllPosts_after_ops
    [of "[CreatePost helloPost 1000, CreatePost helloPost 2000,
          UpdatePost 1 (emptyUpdate\<lparr>upd_title := Some ''Bye''\<rparr>), DeletePost 2,
          UpdatePost 1 (emptyUpdate\<lparr>upd_tags := Some None\<rparr>), UpdatePost 2 emptyUpdate]"]
  by (simp add: expectedPosts_def mergedRecord_def helloPost_def emptyUpdate_def)

subsection \<open>Updates\<close>

text \<open>
  C2, as amended. For a stored post and an update that carries neither an id nor a
  createdAt key, updatePost returns and stores a record whose id and createdAt are those
  of the stored post; every other key the update carries is overwritten and every key it
  leaves out keeps its value.
\<close>

theorem C2_updatePost_frame:
  assumes "getPost i s = Some post" and "upd_id u = None" and "upd_createdAt u = None"
  shows "\<exists>r. fst (updatePost i u s) = Some r \<and> getPost i (snd (updatePost i u s)) = Some r \<and>
     post_id r = post_id post \<and> createdAt r = createdAt post \<and>
     title r = (case upd_title u of None \<Rightarrow> title post | Some v \<Rightarrow> v) \<and>
     content r = (case upd_content u of None \<Rightarrow> content post | Some v \<Rightarrow> v) \<and>
     imageUrl r = (case upd_imageUrl u of None \<Rightarrow> imageUrl post | Some v \<Rightarrow> v) \<and>
     category r = (case upd_category u of None \<Rightarrow> category post | Some v \<Rightarrow> v) \<and>
     tags r = (case upd_tags u of None \<Rightarrow> tags post | Some v \<Rightarrow> v) \<and>
     authorId r = (case upd_authorId u of None \<Rightarrow> authorId post | Some v \<Rightarrow> v) \<and>
     published r = (case upd_published u of None \<Rightarrow> published post | Some v \<Rightarrow> v)"
  using assms
  by (simp add: updatePost_def getPost_def Let_def spreadPost_def spreadKey_def AList.update_conv')

theorem C2_updatePost_frame_witness:
  "getPost 1 (snd (createPost helloPost 1000 newMemStorage)) = Some (newPost 1 helloPost 1000) \<and>
   (\<exists>r. fst (updatePost 1 (emptyUpdate\<lparr>upd_title := Some ''Bye''\<rparr>)
             (snd (createPost helloPost 1000 newMemStorage))) = Some r \<and>
        post_id r = 1 \<and> createdAt r = Some 1000 \<and> title r = ''Bye'' \<and> content r = ''First post'')"
proof -
  have g: "getPost 1 (snd (createPost helloPost 1000 newMemStorage)) = Some (newPost 1 helloPost 1000)"
    by (simp add: getPost_def createPost_def newMemStorage_def Let_def)
  from C2_updatePost_frame [OF g, of "emptyUpdate\<lparr>upd_title := Some ''Bye''\<rparr>"] g
  show ?thesis by (auto simp: emptyUpdate_def newPost_def helloPost_def)
qed

text \<open>
  An update object that carries an id key, or a createdAt key, overwrites that field of
  the stored post: the spread copies every key of the update.
\<close>

theorem C2_updatePost_id_counterexample:
  "map post_id (getAllPosts (snd (createPost helloPost 1000 newMemStorage))) = [1] \<and>
   map post_id (getAllPosts (snd (updatePost 1 (emptyUpdate\<lparr>upd_id := Some 99\<rparr>)
       (snd (createPost helloPost 1000 newMemStorage))))) = [99] \<and>
   map createdAt (getAllPosts (snd (updatePost 1 (emptyUpdate\<lparr>upd_createdAt := Some (Some 5)\<rparr>)
       (snd (createPost helloPost 1000 newMemStorage))))) = [Some 5]"
  by (simp add: getAllPosts_def updatePost_def createPost_def newMemStorage_def Let_def
        spreadPost_def spreadKey_def emptyUpdate_def newPost_def)

text \<open>In general: an id or createdAt key of the update replaces the stored value.\<close>

lemma updatePost_overwrites:
  assumes "getPost i s = Some post"
  shows "upd_id u = Some v \<Longrightarrow>
           map_option post_id (getPost i (snd (updatePost i u s))) = Some v"
    and "upd_createdAt u = Some t \<Longrightarrow>
           map_option createdAt (getPost i (snd (updatePost i u s))) = Some t"
  using assms
  by (simp_all add: updatePost_def getPost_def Let_def spreadPost_def spreadKey_def
        AList.update_conv')

subsection \<open>Users\<close>

text \<open>
  C3. The claim asks createUser to fail on a username that is taken. On the store the
  constructor builds, where the username admin is taken, createUser with that username
  returns a user with the next id 2 and the store then holds two users named admin.
\<close>

theorem C3_createUser_duplicate_username:
  "getUserByUsername ''admin'' newMemStorage = Some adminUser \<and>
   user_id (fst (createUser \<lparr>in_username = ''admin'', in_password = ''pw'', in_fullName = None\<rparr>
                  newMemStorage)) = 2 \<and>
   map username (getAllUsers (snd (createUser
       \<lparr>in_username = ''admin'', in_password = ''pw'', in_fullName = None\<rparr> newMemStorage)))
     = [''admin'', ''admin'']"
  by (simp add: getUserByUsername_def getAllUsers_def createUser_def newMemStorage_def Let_def
        adminUser_def)

text \<open>What createUser does on every input: next id, isAdmin false, the user stored.\<close>

lemma createUser_result:
  "fst (createUser insertUser s) =
     \<lparr>user_id = currentUserId s, username = in_username insertUser,
      password = in_password insertUser, fullName = in_fullName insertUser,
      isAdmin = Some False\<rparr> \<and>
   currentUserId (snd (createUser insertUser s)) = currentUserId s + 1 \<and>
   getUser (currentUserId s) (snd (createUser insertUser s)) = Some (fst (createUser insertUser s))"
  by (simp add: createUser_def getUser_def Let_def AList.update_conv')

subsection \<open>Search\<close>

lemma includes_sublist: "str_includes s q = sublist q s"
  by (induction s) (auto simp: sublist_Cons_right)

lemma includes_Nil [simp]: "str_includes s []"
  by (simp add: includes_sublist)

text \<open>
  Lower-casing seen on code units: a capital moves up by 32, everything else stays.
\<close>

lemma of_char_lowerChar:
  "(of_char (lowerChar c) :: nat) = (if upperCode (of_char c) then of_char c + 32 else of_char c)"
proof (cases c)
  case (Char b0 b1 b2 b3 b4 b5 b6 b7)
  show ?thesis unfolding Char
    by (cases b0; cases b1; cases b2; cases b3; cases b4; cases b5; cases b6; cases b7;
        simp add: lowerChar_def upperCode_def)
qed







lemma searchPosts_example:
  "map post_id (searchPosts ''SEA'' (snd (createPost helloPost 1000 newMemStorage))) = [1] \<and>
   searchPosts ''tree'' (snd (createPost helloPost 1000 newMemStorage)) = []"
  by (simp add: searchPosts_def createPost_def newMemStorage_def Let_def
        searchMatch_def newPost_def helloPost_def toLowerCase_def lowerChar_def)

section \<open>Properties of the external content mapper\<close>

subsection \<open>The mapping\<close>

lemma digitValue_digitChar: "d < 10 \<Longrightarrow> digitValue (digitChar d) = d"
proof -
  assume "d < 10"
  then have "d \<in> {0, 1, 2, 3, 4, 5, 6, 7, 8, 9}" by auto
  then show ?thesis
    by (auto simp: digitValue_def digitChar_def)
qed

lemma decimalValue_natToString: "decimalValue (natToString n) = n"
proof (induction n rule: natToString.induct)
  case (1 n)
  show ?case
  proof (cases "n < 10")
    case True
    then show ?thesis
      by (subst natToString.simps) (simp add: decimalValue_def digitValue_digitChar)
  next
    case False
    with 1 have "decimalValue (natToString (n div 10)) = n div 10" by simp
    with False show ?thesis
      by (subst natToString.simps) (simp add: decimalValue_def digitValue_digitChar)
  qed
qed

lemma join_Cons: "join sep (x # xs) = x @ concat (map (\<lambda>y. sep @ y) xs)"
  by (induction xs arbitrary: x) auto

text \<open>
  C6, as amended. The mapped post has content equal to body, authorId equal to userId,
  category equal to the first tag when there is one and it is not the empty string and
  "Uncategorized" otherwise, tags equal to the tags joined by commas, an imageUrl that is
  a fixed text around the decimal id (so it contains the id), and published true.
\<close>

theorem C6_mapExternalPostToSchema:
  "content (mapExternalPostToSchema now post) = body post \<and>
   authorId (mapExternalPostToSchema now post) = Some (userId post) \<and>
   category (mapExternalPostToSchema now post) =
     Some (if ext_tags post = [] \<or> hd (ext_tags post) = [] then ''Uncategorized''
           else hd (ext_tags post)) \<and>
   tags (mapExternalPostToSchema now post) =
     Some (case ext_tags post of [] \<Rightarrow> [] | t # ts \<Rightarrow> t @ concat (map (\<lambda>y. '','' @ y) ts)) \<and>
   imageUrl (mapExternalPostToSchema now post) =
     Some (''https://picsum.photos/seed/'' @ numberToString (ext_id post) @ ''/800/500'') \<and>
   (\<exists>url. imageUrl (mapExternalPostToSchema now post) = Some url \<and>
          sublist (numberToString (ext_id post)) url) \<and>
   published (mapExternalPostToSchema now post) = Some True"
  by (cases "ext_tags post")
     (simp_all add: mapExternalPostToSchema_def firstTagOr_def join_Cons sublist_appendI
        del: append.simps append_Cons)

theorem C6_mapExternalPostToSchema_witness:
  "content (mapExternalPostToSchema 1000 samplePost) = ''B'' \<and>
   authorId (mapExternalPostToSchema 1000 samplePost) = Some 3 \<and>
   category (mapExternalPostToSchema 1000 samplePost) = Some ''tech'' \<and>
   tags (mapExternalPostToSchema 1000 samplePost) = Some ''tech,x'' \<and>
   imageUrl (mapExternalPostToSchema 1000 samplePost) = Some ''https://picsum.photos/seed/7/800/500'' \<and>
   published (mapExternalPostToSchema 1000 samplePost) = Some True"
proof -
  have "numberToString 7 = ''7''" by code_simp
  with C6_mapExternalPostToSchema [of 1000 samplePost] show ?thesis
    by (simp add: samplePost_def)
qed

text \<open>
  A source post whose tag list is not empty and starts with the empty string is mapped
  to the category "Uncategorized", not to its first tag.
\<close>

theorem C6_empty_first_tag_counterexample:
  "ext_tags (samplePost\<lparr>ext_tags := ['''', ''news'']\<rparr>) \<noteq> [] \<and>
   hd (ext_tags (samplePost\<lparr>ext_tags := ['''', ''news'']\<rparr>)) = '''' \<and>
   category (mapExternalPostToSchema 1000 (samplePost\<lparr>ext_tags := ['''', ''news'']\<rparr>))
     = Some ''Uncategorized''"
  by (simp add: mapExternalPostToSchema_def firstTagOr_def samplePost_def)

subsection \<open>Failures at the fetch boundary\<close>

lemma fetchJson_failed: "fetchFailed fetched \<Longrightarrow> isl (fetchJson msg fetched)"
  by (auto simp: fetchFailed_def fetchJson_def split: sum.splits if_splits)

text \<open>
  C9. When the fetch fails (network error, response not ok, payload that cannot be
  read), fetchExternalPosts, fetchExternalPostsByCategory and searchExternalPosts each
  return the empty list; none of them has another way to end.
\<close>

theorem C9_fetch_failure_gives_empty:
  assumes "fetchFailed fetched"
  shows "fetchExternalPosts now fetched = [] \<and>
         fetchExternalPostsByCategory now cat fetched = [] \<and>
         searchExternalPosts now fetched = []"
proof -
  from assms have a: "\<And>msg. \<exists>e. fetchJson msg fetched = Inl e"
    using fetchJson_failed by (metis isl_def)
  have 1: "fetchExternalPosts now fetched = []"
    using a [of "''Failed to fetch posts from external API''"]
    by (auto simp: fetchExternalPosts_def fetchExternalPosts_try_def catchEmpty_def)
  have 2: "searchExternalPosts now fetched = []"
    using a [of "''Failed to search posts from external API''"]
    by (auto simp: searchExternalPosts_def searchExternalPosts_try_def catchEmpty_def)
  have 3: "fetchExternalPostsByCategory now cat fetched = []"
    using a [of "''Failed to fetch posts from external API''"] 1
    by (auto simp: fetchExternalPostsByCategory_def fetchExternalPostsByCategory_try_def
          catchEmpty_def)
  from 1 2 3 show ?thesis by simp
qed

theorem C9_fetch_failure_witness:
  "fetchFailed (Inl NetworkError) \<and>
   fetchFailed (Inr \<lparr>ok = False, json = Inl SyntaxError\<rparr>) \<and>
   fetchFailed (Inr \<lparr>ok = True, json = Inl TypeError\<rparr>) \<and>
   fetchExternalPosts 1000 (Inl NetworkError) = [] \<and>
   fetchExternalPostsByCategory 1000 ''food'' (Inr \<lparr>ok = False, json = Inl SyntaxError\<rparr>) = [] \<and>
   searchExternalPosts 1000 (Inr \<lparr>ok = True, json = Inl TypeError\<rparr>) = []"
proof -
  have f1: "fetchFailed (Inl NetworkError)"
    and f2: "fetchFailed (Inr \<lparr>ok = False, json = Inl SyntaxError\<rparr>)"
    and f3: "fetchFailed (Inr \<lparr>ok = True, json = Inl TypeError\<rparr>)"
    by (simp_all add: fetchFailed_def)
  from C9_fetch_failure_gives_empty [OF f1, of 1000 "''food''"]
       C9_fetch_failure_gives_empty [OF f2, of 1000 "''food''"]
       C9_fetch_failure_gives_empty [OF f3, of 1000 "''food''"] f1 f2 f3
  show ?thesis by simp
qed

subsection \<open>Ids of external posts\<close>

text \<open>
  C10. The mapped post keeps the id of the source post, and there are a local post and a
  source post for which the combined sequence holds two different posts with one id.
\<close>

theorem C10_external_id_collides:
  "post_id (mapExternalPostToSchema now post) = ext_id post \<and>
   (\<exists>insertPost t e now'.
      length (combinedPosts (getAllPosts (snd (createPost insertPost t newMemStorage)))
                (fetchExternalPosts now' (okResponse [e]))) = 2 \<and>
      combinedPosts (getAllPosts (snd (createPost insertPost t newMemStorage)))
                (fetchExternalPosts now' (okResponse [e])) ! 0 \<noteq>
      combinedPosts (getAllPosts (snd (createPost insertPost t newMemStorage)))
                (fetchExternalPosts now' (okResponse [e])) ! 1 \<and>
      map post_id (combinedPosts (getAllPosts (snd (createPost insertPost t newMemStorage)))
                (fetchExternalPosts now' (okResponse [e]))) = [1, 1])"
proof -
  have "combinedPosts (getAllPosts (snd (createPost helloPost 1000 newMemStorage)))
          (fetchExternalPosts 2000 (okResponse [samplePost\<lparr>ext_id := 1\<rparr>]))
        = [newPost 1 helloPost 1000, mapExternalPostToSchema 2000 (samplePost\<lparr>ext_id := 1\<rparr>)]"
    by (simp add: combinedPosts_def getAllPosts_def createPost_def newMemStorage_def Let_def
          fetchExternalPosts_def fetchExternalPosts_try_def fetchJson_def okResponse_def
          catchEmpty_def)
  moreover have "newPost 1 helloPost 1000 \<noteq> mapExternalPostToSchema 2000 (samplePost\<lparr>ext_id := 1\<rparr>)"
    by (simp add: newPost_def mapExternalPostToSchema_def helloPost_def samplePost_def)
  moreover have "post_id (newPost 1 helloPost 1000) = 1"
    "post_id (mapExternalPostToSchema 2000 (samplePost\<lparr>ext_id := 1\<rparr>)) = 1"
    by (simp_all add: newPost_def mapExternalPostToSchema_def samplePost_def)
  ultimately have "\<exists>insertPost t e now'.
      length (combinedPosts (getAllPosts (snd (createPost insertPost t newMemStorage)))
                (fetchExternalPosts now' (okResponse [e]))) = 2 \<and>
      combinedPosts (getAllPosts (snd (createPost insertPost t newMemStorage)))
                (fetchExternalPosts now' (okResponse [e])) ! 0 \<noteq>
      combinedPosts (getAllPosts (snd (createPost insertPost t newMemStorage)))
                (fetchExternalPosts now' (okResponse [e])) ! 1 \<and>
      map post_id (combinedPosts (getAllPosts (snd (createPost insertPost t newMemStorage)))
                (fetchExternalPosts now' (okResponse [e]))) = [1, 1]"
    by (intro exI [of _ helloPost] exI [of _ 1000] exI [of _ "samplePost\<lparr>ext_id := 1\<rparr>"]
          exI [of _ 2000]) simp
  then show ?thesis by (simp add: mapExternalPostToSchema_def)
qed

subsection \<open>Categories without predefined keywords\<close>

lemma toLowerCase_idem [simp]: "toLowerCase (toLowerCase s) = toLowerCase s"
proof -
  have "lowerChar (lowerChar c) = lowerChar c" for c
  proof -
    have "(of_char (lowerChar (lowerChar c)) :: nat) = of_char (lowerChar c)"
      unfolding of_char_lowerChar by (auto simp: upperCode_def)
    then show ?thesis by simp
  qed
  then show ?thesis by (simp add: toLowerCase_def)
qed

lemma tagMatch_single: "tagMatch [toLowerCase cat] post = tagContains cat post"
  by (auto simp: tagMatch_def tagContains_def caseInsensitiveSubstring_def list_ex_iff
        includes_sublist)

lemma category_forceCategory [simp]: "category (forceCategory now cat post) = Some (toLowerCase cat)"
  by (simp add: forceCategory_def)

text \<open>
  C8, as amended. Take a category that is not "all", whose lower-cased form is none of
  the five predefined ones, not "writing" and not a property name of Object.prototype,
  and a fetch that succeeds. A source post qualifies iff one of its tags contains the
  category as a case-insensitive substring. The result is the qualifying posts, or, when
  none qualifies, the first six source posts (all of them when there are fewer); every
  returned post carries the lower-cased category; the result is empty only when the
  source is.
\<close>

theorem C8_fallback_branch:
  assumes "cat \<noteq> ''all''"
    and "toLowerCase cat \<notin> set predefinedCategories"
    and "toLowerCase cat \<noteq> ''writing''"
    and "toLowerCase cat \<notin> set objectPrototypeKeys"
    and "fetched = Inr response" and "ok response" and "json response = Inr data"
  shows "fetchExternalPostsByCategory now cat fetched =
           map (forceCategory now cat)
             (if filter (tagContains cat) (api_posts data) = [] then take 6 (api_posts data)
              else filter (tagContains cat) (api_posts data)) \<and>
         list_all (\<lambda>p. category p = Some (toLowerCase cat))
           (fetchExternalPostsByCategory now cat fetched) \<and>
         (if filter (tagContains cat) (api_posts data) = []
          then length (fetchExternalPostsByCategory now cat fetched) = min 6 (length (api_posts data))
          else fetchExternalPostsByCategory now cat fetched \<noteq> []) \<and>
         (fetchExternalPostsByCategory now cat fetched = [] \<longleftrightarrow> api_posts data = [])"
proof -
  from assms(3,4) have g: "recordGet fallbackCategoryToTags (toLowerCase cat) = Missing"
    by (simp add: recordGet_def fallbackCategoryToTags_def)
  have ff: "fallbackFiltered cat (api_posts data) = Inr (filter (tagContains cat) (api_posts data))"
    by (simp add: fallbackFiltered_def g tagMatch_single [abs_def])
  have fj: "fetchJson msg fetched = Inr data" for msg
    using assms(5-7) by (simp add: fetchJson_def)
  have r: "fetchExternalPostsByCategory now cat fetched =
           map (forceCategory now cat)
             (if filter (tagContains cat) (api_posts data) = [] then take 6 (api_posts data)
              else filter (tagContains cat) (api_posts data))"
    using assms(1,2)
    by (simp add: fetchExternalPostsByCategory_def fetchExternalPostsByCategory_try_def fj
          fallbackPosts_def ff catchEmpty_def)
  have c: "list_all (\<lambda>p. category p = Some (toLowerCase cat))
           (fetchExternalPostsByCategory now cat fetched)"
    unfolding r by (simp add: list_all_iff)
  have e: "(fetchExternalPostsByCategory now cat fetched = []) = (api_posts data = [])"
    unfolding r by (auto simp: filter_empty_conv)
  have l: "(if filter (tagContains cat) (api_posts data) = []
          then length (fetchExternalPostsByCategory now cat fetched) = min 6 (length (api_posts data))
          else fetchExternalPostsByCategory now cat fetched \<noteq> [])"
    unfolding r by (simp add: min.commute)
  from r c e l show ?thesis by blast
qed

lemma lower_art: "toLowerCase ''Art'' = ''art''"
  by (simp add: toLowerCase_def lowerChar_def)

theorem C8_fallback_branch_witness:
  "map post_id (fetchExternalPostsByCategory 1000 ''Art''
       (okResponse (map (\<lambda>i. samplePost\<lparr>ext_id := i\<rparr>) [1, 2, 3, 4, 5, 6, 7])))
     = [1, 2, 3, 4, 5, 6] \<and>
   list_all (\<lambda>p. category p = Some ''art'') (fetchExternalPostsByCategory 1000 ''Art''
       (okResponse (map (\<lambda>i. samplePost\<lparr>ext_id := i\<rparr>) [1, 2, 3, 4, 5, 6, 7])))"
proof -
  have nq: "\<not> tagContains ''Art'' (samplePost\<lparr>ext_id := i\<rparr>)" for i
    by (simp add: tagContains_def caseInsensitiveSubstring_def lower_art samplePost_def
          toLowerCase_def lowerChar_def sublist_code prefix_code)
  have a: "''Art'' \<noteq> ''all''"
    "toLowerCase ''Art'' \<notin> set predefinedCategories"
    "toLowerCase ''Art'' \<noteq> ''writing''"
    "toLowerCase ''Art'' \<notin> set objectPrototypeKeys"
    by (simp_all add: lower_art predefinedCategories_def objectPrototypeKeys_def)
  let ?src = "map (\<lambda>i. samplePost\<lparr>ext_id := i\<rparr>) [1, 2, 3, 4, 5, 6, 7]"
  let ?resp = "\<lparr>ok = True, json = Inr \<lparr>api_posts = ?src, api_total = int (length ?src),
                  api_skip = 0, api_limit = 100\<rparr>\<rparr>"
  have "okResponse ?src = Inr ?resp" by (simp add: okResponse_def)
  from C8_fallback_branch [OF a this, of _ 1000] nq
  show ?thesis
    by (simp add: forceCategory_def mapExternalPostToSchema_def lower_art)
qed

text \<open>
  For the category "art": a source post tagged "Party" qualifies although no source tag
  equals "art", so the result is that post alone and not a sample of the source; a source
  of one post without a match gives one post, not six; an empty source gives an empty
  result.
\<close>

theorem C8_substring_match_counterexample:
  "''art'' \<notin> set (ext_tags (samplePost\<lparr>ext_id := 1, ext_tags := [''history'']\<rparr>)) \<and>
   ''art'' \<notin> set (ext_tags (samplePost\<lparr>ext_id := 2, ext_tags := [''Party'']\<rparr>)) \<and>
   map post_id (fetchExternalPostsByCategory 1000 ''art''
       (okResponse [samplePost\<lparr>ext_id := 1, ext_tags := [''history'']\<rparr>,
                    samplePost\<lparr>ext_id := 2, ext_tags := [''Party'']\<rparr>])) = [2] \<and>
   length (fetchExternalPostsByCategory 1000 ''art'' (okResponse [samplePost])) = 1 \<and>
   fetchExternalPostsByCategory 1000 ''art'' (okResponse []) = []"
  by (simp add: fetchExternalPostsByCategory_def fetchExternalPostsByCategory_try_def
        fetchJson_def okResponse_def fallbackPosts_def fallbackFiltered_def recordGet_def
        fallbackCategoryToTags_def objectPrototypeKeys_def predefinedCategories_def
        catchEmpty_def tagMatch_def samplePost_def toLowerCase_def lowerChar_def
        forceCategory_def mapExternalPostToSchema_def prefix_code)


subsection \<open>Padding for the predefined categories\<close>

lemma fst_newObjects: "map fst (newObjects a xs) = [a ..< a + length xs]"
  by (simp add: newObjects_def)

lemma snd_newObjects: "map snd (newObjects a xs) = xs"
  by (simp add: newObjects_def)

text \<open>
  The array \<open>filteredPosts\<close> holds the objects built by the \<open>map\<close> callback, so no
  object of \<open>data.posts\<close> is ever found in it and the padding takes the first source
  posts whether or not they already qualified.
\<close>

lemma arrayIncludes_new_objects:
  assumes "post \<in> set (newObjects 0 src)"
  shows "\<not> arrayIncludes (newObjects (length (newObjects 0 src)) xs) post"
proof -
  from assms have "fst post \<in> set (map fst (newObjects 0 src))" by simp
  then have "fst post < length src" by (simp only: fst_newObjects) simp
  then show ?thesis by (simp add: arrayIncludes_def fst_newObjects newObjects_def)
qed

lemma additionalPosts_excludes_nothing:
  "map snd (additionalPosts cat (newObjects 0 src) (newObjects (length (newObjects 0 src)) xs))
   = map (addTag cat) (take (10 - length xs) src)"
proof -
  have "filter (\<lambda>post. \<not> arrayIncludes (newObjects (length (newObjects 0 src)) xs) post)
          (newObjects 0 src) = newObjects 0 src"
    by (rule filter_True) (simp add: arrayIncludes_new_objects)
  then have "map snd (additionalPosts cat (newObjects 0 src)
                 (newObjects (length (newObjects 0 src)) xs))
             = map (\<lambda>post. addTag cat (snd post))
                 (take (10 - length (newObjects (length (newObjects 0 src)) xs)) (newObjects 0 src))"
    by (simp only: additionalPosts_def snd_newObjects)
  also have "\<dots> = map (addTag cat)
                 (map snd (take (10 - length (newObjects (length (newObjects 0 src)) xs))
                    (newObjects 0 src)))"
    by (simp add: comp_def)
  also have "\<dots> = map (addTag cat) (take (10 - length xs) (map snd (newObjects 0 src)))"
    by (simp only: take_map) (simp add: newObjects_def)
  finally show ?thesis by (simp only: snd_newObjects)
qed

text \<open>
  With fewer than five matches the result is the retagged matches followed by the first
  source posts, up to ten posts in all, whether or not these are among the matches.
\<close>

lemma length_newObjects: "length (newObjects a xs) = length xs"
  by (simp add: newObjects_def)

lemma categoryPosts_padded:
  assumes "length (matchedObjects cat (newObjects 0 (api_posts data))) < 5"
  shows "categoryPosts now cat data =
     map (forceCategory now cat)
       (map (\<lambda>post. retag cat (snd post)) (matchedObjects cat (newObjects 0 (api_posts data))) @
        map (addTag cat)
          (take (10 - length (matchedObjects cat (newObjects 0 (api_posts data)))) (api_posts data)))"
proof -
  let ?src = "api_posts data"
  let ?m = "map (\<lambda>post. retag cat (snd post)) (matchedObjects cat (newObjects 0 ?src))"
  let ?f = "newObjects (length (newObjects 0 ?src)) ?m"
  have l: "length ?f < 5" using assms by (simp add: length_newObjects)
  have "categoryPosts now cat data =
        map (\<lambda>post. forceCategory now cat (snd post)) (?f @ additionalPosts cat (newObjects 0 ?src) ?f)"
    using l by (simp add: categoryPosts_def Let_def)
  also have "\<dots> = map (forceCategory now cat)
        (map snd ?f @ map snd (additionalPosts cat (newObjects 0 ?src) ?f))"
    by (simp add: comp_def)
  also have "\<dots> = map (forceCategory now cat) (?m @ map (addTag cat) (take (10 - length ?m) ?src))"
    by (simp only: additionalPosts_excludes_nothing snd_newObjects)
  finally show ?thesis by simp
qed

text \<open>
  C7. The claim asks that padding adds only source posts not already included. For the
  category "food" and a source of two posts of which the first is tagged "recipe", the
  first post qualifies, and the padding adds it a second time before the other one.
\<close>

theorem C7_padding_repeats_included_post:
  "map (\<lambda>p. (post_id p, tags p, category p))
     (fetchExternalPostsByCategory 1000 ''food''
        (okResponse [samplePost\<lparr>ext_id := 1, ext_tags := [''recipe'']\<rparr>,
                     samplePost\<lparr>ext_id := 2, ext_tags := [''history'']\<rparr>]))
   = [(1, Some ''food,recipe'', Some ''food''),
      (1, Some ''food,recipe'', Some ''food''),
      (2, Some ''food,history'', Some ''food'')]"
  by code_simp

section \<open>Properties of the aggregation pipeline\<close>

subsection \<open>Consistent comparators\<close>

lemma consistent_sign: "consistentComparator cmp \<Longrightarrow> (cmp a b < 0) = (0 < cmp b a)"
  unfolding consistentComparator_def by blast

lemma consistent_trans:
  "consistentComparator cmp \<Longrightarrow> cmp a b \<le> 0 \<Longrightarrow> cmp b c \<le> 0 \<Longrightarrow> cmp a c \<le> 0"
  unfolding consistentComparator_def by blast

lemma consistent_refl: "consistentComparator cmp \<Longrightarrow> cmp a a = 0"
  using consistent_sign [of cmp a a] by (cases "cmp a a < 0") auto

lemma consistent_total: "consistentComparator cmp \<Longrightarrow> \<not> cmp a b \<le> 0 \<Longrightarrow> cmp b a \<le> 0"
  using consistent_sign [of cmp b a] by auto

lemma consistent_zero_sym: "consistentComparator cmp \<Longrightarrow> cmp a b = 0 \<Longrightarrow> cmp b a = 0"
  using consistent_sign [of cmp a b] consistent_sign [of cmp b a] by auto

lemma consistent_antisym:
  "consistentComparator cmp \<Longrightarrow> cmp a b \<le> 0 \<Longrightarrow> cmp b a \<le> 0 \<Longrightarrow> cmp a b = 0"
  using consistent_sign [of cmp a b] by auto

lemma consistent_flip:
  assumes "consistentComparator cmp"
  shows "consistentComparator (\<lambda>a b. cmp b a)"
  unfolding consistentComparator_def
proof (intro conjI allI impI)
  fix a b show "(cmp b a < 0) = (0 < cmp a b)" by (rule consistent_sign [OF assms])
next
  fix a b c assume "cmp b a \<le> 0 \<and> cmp c b \<le> 0"
  then show "cmp c a \<le> 0" using consistent_trans [OF assms, of c b a] by simp
qed

subsection \<open>The stable sort\<close>

lemma set_insertBy: "set (insertBy cmp x xs) = insert x (set xs)"
  by (induction xs) auto

lemma set_jsSort: "set (jsSort cmp xs) = set xs"
  by (induction xs) (auto simp: jsSort_def set_insertBy)

lemma distinct_insertBy: "distinct (insertBy cmp x xs) = (x \<notin> set xs \<and> distinct xs)"
  by (induction xs) (auto simp: set_insertBy)

lemma distinct_jsSort: "distinct (jsSort cmp xs) = distinct xs"
proof (induction xs)
  case Nil
  show ?case by (simp add: jsSort_def)
next
  case (Cons x xs)
  have "jsSort cmp (x # xs) = insertBy cmp x (jsSort cmp xs)" by (simp add: jsSort_def)
  with Cons show ?case by (simp add: distinct_insertBy set_jsSort)
qed

lemma sorted_insertBy:
  assumes "consistentComparator cmp" and "sorted_wrt (\<lambda>a b. cmp a b \<le> 0) xs"
  shows "sorted_wrt (\<lambda>a b. cmp a b \<le> 0) (insertBy cmp x xs)"
  using assms(2)
proof (induction xs)
  case Nil
  show ?case by simp
next
  case (Cons y ys)
  show ?case
  proof (cases "cmp x y \<le> 0")
    case True
    with Cons.prems have "\<forall>z \<in> set ys. cmp x z \<le> 0"
      using consistent_trans [OF assms(1)] by auto
    with True Cons.prems show ?thesis by simp
  next
    case False
    then have "cmp y x \<le> 0" by (rule consistent_total [OF assms(1)])
    with False Cons show ?thesis by (auto simp: set_insertBy)
  qed
qed

lemma sorted_jsSort:
  "consistentComparator cmp \<Longrightarrow> sorted_wrt (\<lambda>a b. cmp a b \<le> 0) (jsSort cmp xs)"
proof (induction xs)
  case Nil
  show ?case by (simp add: jsSort_def)
next
  case (Cons x xs)
  have "jsSort cmp (x # xs) = insertBy cmp x (jsSort cmp xs)" by (simp add: jsSort_def)
  with Cons show ?case by (simp add: sorted_insertBy)
qed

text \<open>
  Two duplicate-free lists with the same elements, both ordered by a relation that is
  antisymmetric on these elements, are the same list.
\<close>

lemma sorted_wrt_unique:
  assumes anti: "\<And>a b. a \<in> set xs \<Longrightarrow> b \<in> set xs \<Longrightarrow> P a b \<Longrightarrow> P b a \<Longrightarrow> a = b"
    and "sorted_wrt P xs" and "sorted_wrt P ys"
    and "set xs = set ys" and "distinct xs" and "distinct ys"
  shows "xs = ys"
  using assms
proof (induction xs arbitrary: ys)
  case Nil
  then show ?case by simp
next
  case (Cons x xs)
  from Cons.prems(4) obtain y ys' where ys: "ys = y # ys'" by (cases ys) auto
  have xy: "x = y"
  proof (rule ccontr)
    assume ne: "x \<noteq> y"
    with Cons.prems(4) ys have "x \<in> set ys'" and "y \<in> set xs" by auto
    with Cons.prems(2,3) ys have "P y x" and "P x y" by auto
    with Cons.prems(1) [of x y] \<open>y \<in> set xs\<close> ne show False by auto
  qed
  from Cons.prems(4,5,6) ys xy have e: "set xs = set ys'"
    by (auto simp: insert_eq_iff)
  from Cons.prems(2,3,5,6) ys
  have s: "sorted_wrt P xs" "sorted_wrt P ys'" and d: "distinct xs" "distinct ys'" by auto
  have a: "\<And>a b. a \<in> set xs \<Longrightarrow> b \<in> set xs \<Longrightarrow> P a b \<Longrightarrow> P b a \<Longrightarrow> a = b"
    using Cons.prems(1) by simp
  have "xs = ys'" by (rule Cons.IH [OF a s e d])
  with ys xy show ?case by simp
qed

subsection \<open>Ties\<close>

lemma noTies_iff:
  "noTies cmp xs \<longleftrightarrow> (\<forall>i j. i < j \<and> j < length xs \<longrightarrow> cmp (xs ! i) (xs ! j) \<noteq> 0)"
proof (induction xs)
  case Nil
  show ?case by simp
next
  case (Cons x xs)
  show ?case
  proof
    assume l: "noTies cmp (x # xs)"
    show "\<forall>i j. i < j \<and> j < length (x # xs) \<longrightarrow> cmp ((x # xs) ! i) ((x # xs) ! j) \<noteq> 0"
    proof (intro allI impI)
      fix i j assume ij: "i < j \<and> j < length (x # xs)"
      then obtain j' where j: "j = Suc j'" by (cases j) auto
      show "cmp ((x # xs) ! i) ((x # xs) ! j) \<noteq> 0"
      proof (cases i)
        case 0
        with l ij j show ?thesis by (auto simp: list_all_iff)
      next
        case (Suc i')
        with l ij j Cons.IH show ?thesis by auto
      qed
    qed
  next
    assume r: "\<forall>i j. i < j \<and> j < length (x # xs) \<longrightarrow> cmp ((x # xs) ! i) ((x # xs) ! j) \<noteq> 0"
    have "list_all (\<lambda>y. cmp x y \<noteq> 0) xs"
      unfolding list_all_iff
    proof
      fix y assume "y \<in> set xs"
      then obtain k where "k < length xs" "xs ! k = y" by (auto simp: in_set_conv_nth)
      with r [rule_format, of 0 "Suc k"] show "cmp x y \<noteq> 0" by auto
    qed
    moreover have "noTies cmp xs"
      unfolding Cons.IH
    proof (intro allI impI)
      fix i j assume "i < j \<and> j < length xs"
      with r [rule_format, of "Suc i" "Suc j"] show "cmp (xs ! i) (xs ! j) \<noteq> 0" by auto
    qed
    ultimately show "noTies cmp (x # xs)" by simp
  qed
qed

lemma noTies_distinct:
  assumes "consistentComparator cmp" and "noTies cmp xs"
  shows "distinct xs"
  using assms(2)
  by (induction xs) (auto simp: list_all_iff consistent_refl [OF assms(1)])

lemma noTies_set:
  assumes "consistentComparator cmp" and "noTies cmp xs"
    and "a \<in> set xs" and "b \<in> set xs" and "cmp a b = 0"
  shows "a = b"
  using assms(2-5)
proof (induction xs)
  case Nil
  then show ?case by simp
next
  case (Cons x xs)
  then show ?case
    using consistent_zero_sym [OF assms(1)]
    by (auto simp: list_all_iff)
qed

lemma noTies_filter: "noTies cmp xs \<Longrightarrow> noTies cmp (filter P xs)"
  by (induction xs) (auto simp: list_all_iff)

text \<open>Without ties, sorting by the mirrored comparator gives the reversed list.\<close>

lemma jsSort_flip:
  assumes c: "consistentComparator cmp" and n: "noTies cmp xs"
  shows "jsSort (\<lambda>a b. cmp b a) xs = rev (jsSort cmp xs)"
proof (rule sorted_wrt_unique [where P = "\<lambda>a b. cmp b a \<le> 0"])
  fix a b
  assume "a \<in> set (jsSort (\<lambda>a b. cmp b a) xs)" and "b \<in> set (jsSort (\<lambda>a b. cmp b a) xs)"
    and "cmp b a \<le> 0" and "cmp a b \<le> 0"
  then have "a \<in> set xs" "b \<in> set xs" "cmp a b = 0"
    using consistent_antisym [OF c, of a b] by (simp_all add: set_jsSort)
  then show "a = b" by (rule noTies_set [OF c n])
next
  show "sorted_wrt (\<lambda>a b. cmp b a \<le> 0) (jsSort (\<lambda>a b. cmp b a) xs)"
    by (rule sorted_jsSort [OF consistent_flip [OF c]])
  show "sorted_wrt (\<lambda>a b. cmp b a \<le> 0) (rev (jsSort cmp xs))"
    by (simp add: sorted_wrt_rev sorted_jsSort [OF c])
  show "set (jsSort (\<lambda>a b. cmp b a) xs) = set (rev (jsSort cmp xs))"
    by (simp add: set_jsSort)
  show "distinct (jsSort (\<lambda>a b. cmp b a) xs)" "distinct (rev (jsSort cmp xs))"
    using noTies_distinct [OF c n] by (simp_all add: distinct_jsSort)
qed


subsection \<open>The four sort orders\<close>

lemma noTies_key:
  fixes f :: "'a \<Rightarrow> int"
  shows "distinct (map f xs) \<Longrightarrow> noTies (\<lambda>a b. f a - f b) xs"
  by (induction xs) (auto simp: list_all_iff)

lemma consistent_key:
  fixes f :: "'a \<Rightarrow> int"
  shows "consistentComparator (\<lambda>a b. f a - f b)"
  by (auto simp: consistentComparator_def)

lemma consistent_on_title:
  "consistentComparator lc \<Longrightarrow> consistentComparator (\<lambda>a b. lc (title a) (title b))"
  unfolding consistentComparator_def by blast

lemma comparePosts_cases:
  "comparePosts lc ''oldest'' = (\<lambda>a b. createdAtTime a - createdAtTime b)"
  "comparePosts lc ''latest'' = (\<lambda>a b. createdAtTime b - createdAtTime a)"
  "comparePosts lc ''title_asc'' = (\<lambda>a b. lc (title a) (title b))"
  "comparePosts lc ''title_desc'' = (\<lambda>a b. lc (title b) (title a))"
  by (simp_all add: comparePosts_def fun_eq_iff)

lemma distinct_times_stages:
  "distinct (map createdAtTime ps) \<Longrightarrow>
   distinct (map createdAtTime (searchStage q (categoryStage c ps)))"
  by (simp add: searchStage_def categoryStage_def distinct_map_filter Let_def)

lemma noTies_stages:
  "noTies cmp ps \<Longrightarrow> noTies cmp (searchStage q (categoryStage c ps))"
  by (simp add: searchStage_def categoryStage_def noTies_filter Let_def)

text \<open>
  C5, as amended. Let localeCompare be a consistent comparator and fix the category and
  search filters. If no two input posts have the same creation time, a missing createdAt
  counting as time 0, the output for latest is the reverse of the output for oldest. If no
  two input posts have titles that compare equal, the output for title_asc is the reverse
  of the output for title_desc.
\<close>

theorem C5_sort_orders_reverse:
  assumes "consistentComparator lc"
  shows "(distinct (map createdAtTime ps) \<longrightarrow>
            pipeline lc ps c q ''latest'' = rev (pipeline lc ps c q ''oldest'')) \<and>
         (noTies (\<lambda>a b. lc (title a) (title b)) ps \<longrightarrow>
            pipeline lc ps c q ''title_asc'' = rev (pipeline lc ps c q ''title_desc''))"
proof (intro conjI impI)
  assume "distinct (map createdAtTime ps)"
  then have "noTies (\<lambda>a b. createdAtTime a - createdAtTime b) (searchStage q (categoryStage c ps))"
    by (intro noTies_key distinct_times_stages)
  from jsSort_flip [OF consistent_key this]
  show "pipeline lc ps c q ''latest'' = rev (pipeline lc ps c q ''oldest'')"
    by (simp add: pipeline_def comparePosts_cases)
next
  assume "noTies (\<lambda>a b. lc (title a) (title b)) ps"
  then have "noTies (\<lambda>a b. lc (title a) (title b)) (searchStage q (categoryStage c ps))"
    by (rule noTies_stages)
  from jsSort_flip [OF consistent_on_title [OF assms] this]
  show "pipeline lc ps c q ''title_asc'' = rev (pipeline lc ps c q ''title_desc'')"
    by (simp add: pipeline_def comparePosts_cases)
qed

text \<open>The code-unit comparator is consistent.\<close>

lemma codeUnitCompare_sign: "(codeUnitCompare a b < 0) = (0 < codeUnitCompare b a)"
  by (induction a b rule: codeUnitCompare.induct) auto

lemma codeUnitCompare_trans:
  "codeUnitCompare a b \<le> 0 \<Longrightarrow> codeUnitCompare b c \<le> 0 \<Longrightarrow> codeUnitCompare a c \<le> 0"
proof (induction a arbitrary: b c)
  case Nil
  then show ?case by (cases c) auto
next
  case (Cons x a)
  from Cons.prems obtain y b' where b: "b = y # b'" by (cases b) auto
  with Cons.prems obtain z c' where c: "c = z # c'" by (cases c) (auto split: if_splits)
  from Cons.prems Cons.IH [of b' c'] show ?case
    unfolding b c by (auto split: if_splits)
qed

lemma consistent_codeUnitCompare: "consistentComparator codeUnitCompare"
  unfolding consistentComparator_def
  using codeUnitCompare_sign codeUnitCompare_trans by blast

theorem C5_sort_orders_reverse_witness:
  "consistentComparator codeUnitCompare \<and>
   distinct (map createdAtTime [applePost, bananaPost]) \<and>
   noTies (\<lambda>a b. codeUnitCompare (title a) (title b)) [applePost, bananaPost] \<and>
   map title (pipeline codeUnitCompare [applePost, bananaPost] ''all'' '''' ''latest'')
     = [''Banana'', ''Apple''] \<and>
   map title (pipeline codeUnitCompare [applePost, bananaPost] ''all'' '''' ''oldest'')
     = [''Apple'', ''Banana''] \<and>
   map title (pipeline codeUnitCompare [applePost, bananaPost] ''all'' '''' ''title_asc'')
     = [''Apple'', ''Banana''] \<and>
   map title (pipeline codeUnitCompare [applePost, bananaPost] ''all'' '''' ''title_desc'')
     = [''Banana'', ''Apple'']"
proof -
  have d: "distinct (map createdAtTime [applePost, bananaPost])"
    by (simp add: applePost_def bananaPost_def newPost_def createdAtTime_def)
  have n: "noTies (\<lambda>a b. codeUnitCompare (title a) (title b)) [applePost, bananaPost]"
    by code_simp
  have o: "map title (pipeline codeUnitCompare [applePost, bananaPost] ''all'' '''' ''oldest'')
     = [''Apple'', ''Banana'']"
    by code_simp
  have t: "map title (pipeline codeUnitCompare [applePost, bananaPost] ''all'' '''' ''title_desc'')
     = [''Banana'', ''Apple'']"
    by code_simp
  from C5_sort_orders_reverse [OF consistent_codeUnitCompare, of "[applePost, bananaPost]" "''all''" "''''"] d n
  have "pipeline codeUnitCompare [applePost, bananaPost] ''all'' '''' ''latest'' =
          rev (pipeline codeUnitCompare [applePost, bananaPost] ''all'' '''' ''oldest'')"
    and "pipeline codeUnitCompare [applePost, bananaPost] ''all'' '''' ''title_asc'' =
          rev (pipeline codeUnitCompare [applePost, bananaPost] ''all'' '''' ''title_desc'')"
    by blast+
  then have "map title (pipeline codeUnitCompare [applePost, bananaPost] ''all'' '''' ''latest'') =
          rev (map title (pipeline codeUnitCompare [applePost, bananaPost] ''all'' '''' ''oldest''))"
    and "map title (pipeline codeUnitCompare [applePost, bananaPost] ''all'' '''' ''title_asc'') =
          rev (map title (pipeline codeUnitCompare [applePost, bananaPost] ''all'' '''' ''title_desc''))"
    by (simp_all only: rev_map)
  with o t d n consistent_codeUnitCompare show ?thesis
    by simp
qed

text \<open>
  Two posts with the same title keep their input order under title_asc and under
  title_desc alike, so the one output is not the reverse of the other.
\<close>

theorem C5_equal_titles_counterexample:
  "map post_id (pipeline codeUnitCompare [newPost 1 helloPost 1000, newPost 2 helloPost 2000]
       ''all'' '''' ''title_asc'') = [1, 2] \<and>
   map post_id (rev (pipeline codeUnitCompare [newPost 1 helloPost 1000, newPost 2 helloPost 2000]
       ''all'' '''' ''title_desc'')) = [2, 1]"
  by code_simp

end
